theory Spec2Isabelle
  imports Main "HOL-Library.Word"
begin

section \<open>JavaScript strings\<close>

text \<open>
  A JavaScript string is a sequence of UTF-16 code units; \<open>length\<close>, the regular
  expressions without the \<open>u\<close> flag and \<open>replace\<close> all work on code units. The type
  annotations of the source say \<open>string\<close>, so the \<open>typeof input !== 'string'\<close> guards are
  not reachable from typed callers and a parameter of type \<open>jsstring\<close> is always a string.
\<close>

type_synonym code_unit = "16 word"
type_synonym jsstring = "code_unit list"

definition cu :: "char \<Rightarrow> code_unit" where
  "cu c = of_nat (of_char c)"

definition str :: "string \<Rightarrow> jsstring" where
  "str s = map cu s"

text \<open>\<open>s.replace(/c/g, rep)\<close> for a pattern that is one literal character.\<close>

definition replace_all :: "code_unit \<Rightarrow> jsstring \<Rightarrow> jsstring \<Rightarrow> jsstring" where
  "replace_all c rep s = concat (map (\<lambda>x. if x = c then rep else [x]) s)"

text \<open>
  \<open>s.replace(/<[^>]*>/g, '')\<close>: scanning from the left, a \<open><\<close> followed somewhere by
  a \<open>>\<close> is removed together with everything up to the first such \<open>>\<close>; a \<open><\<close> with no
  \<open>>\<close> after it does not match and is kept, and the scan goes on with the next unit.
\<close>

function strip_tags :: "jsstring \<Rightarrow> jsstring" where
  "strip_tags [] = []"
| "strip_tags (c # cs) =
     (if c = cu CHR ''<'' then
        (case dropWhile (\<lambda>x. x \<noteq> cu CHR ''>'') cs of
           [] \<Rightarrow> c # strip_tags cs
         | _ # rest \<Rightarrow> strip_tags rest)
      else c # strip_tags cs)"
  by pat_completeness auto
termination
proof (relation "measure length")
  fix c :: code_unit and cs x rest
  assume "dropWhile (\<lambda>x. x \<noteq> cu CHR ''>'') cs = x # rest"
  then have "Suc (length rest) = length (dropWhile (\<lambda>x. x \<noteq> cu CHR ''>'') cs)"
    by simp
  also have "\<dots> \<le> length cs"
    by (rule length_dropWhile_le)
  finally show "(rest, c # cs) \<in> measure length"
    by simp
qed simp_all

text \<open>\<open>String.prototype.trim\<close> removes WhiteSpace and LineTerminator units at both ends;
  the class \<open>\s\<close> of the regular expressions is the same set.\<close>

definition is_space :: "code_unit \<Rightarrow> bool" where
  "is_space c \<longleftrightarrow>
     (0x09 \<le> c \<and> c \<le> 0x0D) \<or> c = 0x20 \<or> c = 0xA0 \<or> c = 0x1680 \<or>
     (0x2000 \<le> c \<and> c \<le> 0x200A) \<or> c = 0x2028 \<or> c = 0x2029 \<or> c = 0x202F \<or>
     c = 0x205F \<or> c = 0x3000 \<or> c = 0xFEFF"

definition trim :: "jsstring \<Rightarrow> jsstring" where
  "trim s = rev (dropWhile is_space (rev (dropWhile is_space s)))"

text \<open>Decimal digits of a natural number, as a template literal prints an index.\<close>

fun dec :: "nat \<Rightarrow> jsstring" where
  "dec n = (if n < 10 then [cu CHR ''0'' + of_nat n]
            else dec (n div 10) @ [cu CHR ''0'' + of_nat (n mod 10)])"

declare dec.simps [simp del]

section \<open>lib/security.ts\<close>

definition sanitizeHtml :: "jsstring \<Rightarrow> jsstring" where
  "sanitizeHtml input =
     replace_all (cu CHR ''/'') (str ''&#x2F;'')
       (replace_all (cu CHR 0x27) (str ''&#x27;'')
         (replace_all (cu CHR 0x22) (str ''&quot;'')
           (replace_all (cu CHR ''>'') (str ''&gt;'')
             (replace_all (cu CHR ''<'') (str ''&lt;'')
               (replace_all (cu CHR ''&'') (str ''&amp;'') input)))))"

definition sanitizeText :: "jsstring \<Rightarrow> jsstring" where
  "sanitizeText input =
     replace_all (cu CHR 0x27) (str ''&#x27;'')
       (replace_all (cu CHR 0x22) (str ''&quot;'')
         (replace_all (cu CHR ''>'') (str ''&gt;'')
           (replace_all (cu CHR ''<'') (str ''&lt;'')
             (replace_all (cu CHR ''&'') (str ''&amp;'')
               (strip_tags input)))))"

text \<open>The six characters that \<open>sanitizeHtml\<close> replaces.\<close>

definition escaped_units :: "code_unit set" where
  "escaped_units =
     {cu CHR ''&'', cu CHR ''<'', cu CHR ''>'', cu CHR 0x22, cu CHR 0x27, cu CHR ''/''}"

record 'a ValidationResult =
  sanitized :: 'a
  errors :: "jsstring list"

record PasswordValidation =
  errors :: "jsstring list"

text \<open>
  The loop of \<open>validatePollOptions\<close>: \<open>i\<close> is the loop index, the second argument the
  options from index \<open>i\<close> on, and the two accumulators are the arrays \<open>sanitized\<close>
  and \<open>errors\<close> that the loop pushes to.
\<close>

fun options_loop ::
  "nat \<Rightarrow> jsstring list \<Rightarrow> jsstring list \<Rightarrow> jsstring list \<Rightarrow> jsstring list \<times> jsstring list"
where
  "options_loop i [] sanitized_acc errors_acc = (sanitized_acc, errors_acc)"
| "options_loop i (x # rest) sanitized_acc errors_acc =
     (let option = trim (sanitizeText x) in
      if option = [] then
        options_loop (i + 1) rest sanitized_acc
          (errors_acc @ [str ''Option '' @ dec (i + 1) @ str '' cannot be empty''])
      else if length option > 200 then
        options_loop (i + 1) rest sanitized_acc
          (errors_acc @
             [str ''Option '' @ dec (i + 1) @ str '' must be less than 200 characters''])
      else
        options_loop (i + 1) rest (sanitized_acc @ [option]) errors_acc)"

text \<open>\<open>new Set(sanitized).size\<close>: a set of strings compares them by value.
  The test \<open>!options\<close> is false for every array, so only the length decides.\<close>

definition set_size :: "jsstring list \<Rightarrow> nat" where
  "set_size xs = length (remdups xs)"

definition validatePollOptions :: "jsstring list \<Rightarrow> (jsstring list) ValidationResult" where
  "validatePollOptions options =
     (if length options < 2 then
        \<lparr>sanitized = [], errors = [str ''At least 2 options are required'']\<rparr>
      else if length options > 10 then
        \<lparr>sanitized = [], errors = [str ''Maximum 10 options allowed'']\<rparr>
      else
        (case options_loop 0 options [] [] of
           (sanitized', errors') \<Rightarrow>
             if set_size sanitized' \<noteq> length sanitized' then
               \<lparr>sanitized = sanitized',
                errors = errors' @ [str ''Duplicate options are not allowed'']\<rparr>
             else \<lparr>sanitized = sanitized', errors = errors'\<rparr>))"

text \<open>
  Character classes of the regular expressions: \<open>[a-z]\<close>, \<open>[A-Z]\<close>, \<open>\d\<close>, and the
  line terminators, which \<open>.\<close> does not match.
\<close>

definition is_lower :: "code_unit \<Rightarrow> bool" where
  "is_lower c \<longleftrightarrow> cu CHR ''a'' \<le> c \<and> c \<le> cu CHR ''z''"

definition is_upper :: "code_unit \<Rightarrow> bool" where
  "is_upper c \<longleftrightarrow> cu CHR ''A'' \<le> c \<and> c \<le> cu CHR ''Z''"

definition is_digit :: "code_unit \<Rightarrow> bool" where
  "is_digit c \<longleftrightarrow> cu CHR ''0'' \<le> c \<and> c \<le> cu CHR ''9''"

definition is_line_terminator :: "code_unit \<Rightarrow> bool" where
  "is_line_terminator c \<longleftrightarrow> c = 0x0A \<or> c = 0x0D \<or> c = 0x2028 \<or> c = 0x2029"

text \<open>\<open>.*[cls]\<close> matched at the start of a string: units that are not line terminators,
  then one unit of the class.\<close>

fun dot_star_then :: "(code_unit \<Rightarrow> bool) \<Rightarrow> jsstring \<Rightarrow> bool" where
  "dot_star_then cls [] = False"
| "dot_star_then cls (c # cs) = (cls c \<or> (\<not> is_line_terminator c \<and> dot_star_then cls cs))"

text \<open>\<open>/(?=.*[cls])/.test(s)\<close>: the pattern is not anchored, so the lookahead is tried
  at every index of \<open>s\<close> from the left.\<close>

fun lookahead_test :: "(code_unit \<Rightarrow> bool) \<Rightarrow> jsstring \<Rightarrow> bool" where
  "lookahead_test cls [] = False"
| "lookahead_test cls (c # cs) = (dot_star_then cls (c # cs) \<or> lookahead_test cls cs)"

definition validatePassword :: "jsstring \<Rightarrow> PasswordValidation" where
  "validatePassword password =
     \<lparr>errors =
        (if password = [] then [str ''Password is required'']
         else if length password < 8 then
           [str ''Password must be at least 8 characters long'']
         else if length password > 128 then [str ''Password is too long'']
         else if \<not> lookahead_test is_lower password then
           [str ''Password must contain at least one lowercase letter'']
         else if \<not> lookahead_test is_upper password then
           [str ''Password must contain at least one uppercase letter'']
         else if \<not> lookahead_test is_digit password then
           [str ''Password must contain at least one number'']
         else [])\<rparr>"

text \<open>
  \<open>/^[^\s@]+@[^\s@]+\.[^\s@]+$/.test(s)\<close>. No part of the pattern but the literal
  \<open>@\<close> matches an \<open>@\<close>, so the first \<open>@\<close> of \<open>s\<close> ends the local part; what follows
  it has neither white space nor \<open>@\<close> and has a dot that is neither its first nor its
  last unit.
\<close>

definition email_shape :: "jsstring \<Rightarrow> bool" where
  "email_shape s =
     (let local_part = takeWhile (\<lambda>c. c \<noteq> cu CHR ''@'') s in
      local_part \<noteq> [] \<and> \<not> list_ex is_space local_part \<and>
      (case dropWhile (\<lambda>c. c \<noteq> cu CHR ''@'') s of
         [] \<Rightarrow> False
       | _ # domain \<Rightarrow>
           \<not> list_ex (\<lambda>c. is_space c \<or> c = cu CHR ''@'') domain \<and>
           list_ex (\<lambda>i. domain ! i = cu CHR ''.'') [1..<length domain - 1]))"

text \<open>
  \<open>toLowerCase\<close> maps a string through the Unicode case tables of the runtime, which
  are not part of the repository: it is a parameter of \<open>validateEmail\<close>.
\<close>

definition validateEmail :: "(jsstring \<Rightarrow> jsstring) \<Rightarrow> jsstring \<Rightarrow> jsstring ValidationResult" where
  "validateEmail toLowerCase email =
     (let sanitized' = toLowerCase (trim email) in
      \<lparr>sanitized = sanitized',
       errors =
         (if sanitized' = [] then [str ''Email is required'']
          else if \<not> email_shape sanitized' then [str ''Please enter a valid email address'']
          else if length sanitized' > 254 then [str ''Email address is too long'']
          else [])\<rparr>)"

text \<open>The class \<open>[a-zA-Z\s'-]\<close> of \<open>validateName\<close>.\<close>

definition is_name_unit :: "code_unit \<Rightarrow> bool" where
  "is_name_unit c \<longleftrightarrow>
     is_lower c \<or> is_upper c \<or> is_space c \<or> c = cu CHR 0x27 \<or> c = cu CHR ''-''"

definition validateName :: "jsstring \<Rightarrow> jsstring ValidationResult" where
  "validateName name =
     (let sanitized' = trim (sanitizeText name) in
      \<lparr>sanitized = sanitized',
       errors =
         (if sanitized' = [] then [str ''Name is required'']
          else if length sanitized' < 2 then [str ''Name must be at least 2 characters long'']
          else if length sanitized' > 100 then [str ''Name must be less than 100 characters'']
          else if \<not> list_all is_name_unit sanitized' then
            [str ''Name can only contain letters, spaces, hyphens, and apostrophes'']
          else [])\<rparr>)"

subsection \<open>The options of a poll, as the specification describes them\<close>

text \<open>
  The specification describes the result of \<open>validatePollOptions\<close> without the loop:
  every option is cleaned (\<open>sanitizeText\<close>, then \<open>trim\<close>); a cleaned option is accepted
  when it is neither empty nor longer than 200 units; every other option gives one error
  that names its 1-based index.
\<close>

definition clean_option :: "jsstring \<Rightarrow> jsstring" where
  "clean_option x = trim (sanitizeText x)"

definition option_accepted :: "jsstring \<Rightarrow> bool" where
  "option_accepted x \<longleftrightarrow> x \<noteq> [] \<and> length x \<le> 200"

definition option_error :: "nat \<Rightarrow> jsstring \<Rightarrow> jsstring list" where
  "option_error k x =
     (if x = [] then [str ''Option '' @ dec k @ str '' cannot be empty'']
      else if length x > 200 then
        [str ''Option '' @ dec k @ str '' must be less than 200 characters'']
      else [])"

definition per_option_errors :: "jsstring list \<Rightarrow> jsstring list" where
  "per_option_errors options =
     concat (map (\<lambda>i. option_error (i + 1) (clean_option (options ! i))) [0..<length options])"

section \<open>lib/rate-limit.ts\<close>

text \<open>
  Counts and times are JavaScript numbers that only ever hold integers (\<open>Date.now()\<close>
  is a whole number of milliseconds), far below \<open>2^53\<close>, where the arithmetic of the
  source is exact: they are modelled as \<open>int\<close>. The reading of the clock is a parameter
  \<open>now\<close> of every function that calls \<open>Date.now()\<close>, and the module-level
  \<open>rateLimitStore\<close> is passed in and returned.
\<close>

record RateLimitEntry =
  count :: int
  resetTime :: int

type_synonym RateLimitStore = "jsstring \<rightharpoonup> RateLimitEntry"

text \<open>The keys \<open>auth\<close>, \<open>pollCreation\<close> and \<open>api\<close> of \<open>RATE_LIMITS\<close>.\<close>

datatype RateLimitType = Auth | PollCreation | Api

record RateLimitConfig =
  windowMs :: int
  maxAttempts :: int

fun RATE_LIMITS :: "RateLimitType \<Rightarrow> RateLimitConfig" where
  "RATE_LIMITS Auth = \<lparr>windowMs = 15 * 60 * 1000, maxAttempts = 5\<rparr>"
| "RATE_LIMITS PollCreation = \<lparr>windowMs = 60 * 1000, maxAttempts = 3\<rparr>"
| "RATE_LIMITS Api = \<lparr>windowMs = 60 * 1000, maxAttempts = 30\<rparr>"

fun type_name :: "RateLimitType \<Rightarrow> jsstring" where
  "type_name Auth = str ''auth''"
| "type_name PollCreation = str ''pollCreation''"
| "type_name Api = str ''api''"

text \<open>The template literal \<open>`${type}:${identifier}`\<close>.\<close>

definition rate_key :: "RateLimitType \<Rightarrow> jsstring \<Rightarrow> jsstring" where
  "rate_key type identifier = type_name type @ str '':'' @ identifier"

record RateLimitResult =
  allowed :: bool
  remaining :: int
  resetTime :: int

definition checkRateLimit ::
  "jsstring \<Rightarrow> RateLimitType \<Rightarrow> int \<Rightarrow> RateLimitStore \<Rightarrow> RateLimitResult \<times> RateLimitStore"
where
  "checkRateLimit identifier type now rateLimitStore =
     (let config = RATE_LIMITS type;
          key = rate_key type identifier;
          fresh = (let newEntry = \<lparr>count = 1, resetTime = now + windowMs config\<rparr> in
                   (\<lparr>allowed = True, remaining = maxAttempts config - 1,
                     resetTime = RateLimitEntry.resetTime newEntry\<rparr>,
                    rateLimitStore(key \<mapsto> newEntry)))
      in case rateLimitStore key of
           None \<Rightarrow> fresh
         | Some entry \<Rightarrow>
             if now > RateLimitEntry.resetTime entry then fresh
             else if count entry \<ge> maxAttempts config then
               (\<lparr>allowed = False, remaining = 0,
                 resetTime = RateLimitEntry.resetTime entry\<rparr>,
                rateLimitStore)
             else
               (let entry' = entry\<lparr>count := count entry + 1\<rparr> in
                (\<lparr>allowed = True, remaining = maxAttempts config - count entry',
                  resetTime = RateLimitEntry.resetTime entry'\<rparr>,
                 rateLimitStore(key \<mapsto> entry'))))"

text \<open>
  \<open>Headers\<close> objects compare header names without regard to case: a name is stored and
  looked up in lower case. \<open>get\<close> returns \<open>null\<close> (here \<open>None\<close>) for a missing header.
\<close>

type_synonym Headers = "jsstring \<rightharpoonup> jsstring"

definition header_name :: "jsstring \<Rightarrow> jsstring" where
  "header_name n = map (\<lambda>c. if is_upper c then c + 0x20 else c) n"

definition headers_get :: "Headers \<Rightarrow> jsstring \<Rightarrow> jsstring option" where
  "headers_get h n = h (header_name n)"

definition headers_set :: "Headers \<Rightarrow> jsstring \<Rightarrow> jsstring \<Rightarrow> Headers" where
  "headers_set h n v = h(header_name n \<mapsto> v)"

text \<open>\<open>if (x)\<close> on a value that is a string or \<open>null\<close>: the empty string is falsy too.\<close>

definition truthy :: "jsstring option \<Rightarrow> bool" where
  "truthy x = (case x of None \<Rightarrow> False | Some v \<Rightarrow> v \<noteq> [])"

definition getClientIP :: "Headers \<Rightarrow> jsstring" where
  "getClientIP headers =
     (let forwarded = headers_get headers (str ''x-forwarded-for'');
          realIP = headers_get headers (str ''x-real-ip'');
          cfConnectingIP = headers_get headers (str ''cf-connecting-ip'')
      in if truthy cfConnectingIP then the cfConnectingIP
         else if truthy realIP then the realIP
         else if truthy forwarded then
           trim (takeWhile (\<lambda>c. c \<noteq> cu CHR '','') (the forwarded))
         else str ''unknown'')"

definition cleanupExpiredEntries :: "int \<Rightarrow> RateLimitStore \<Rightarrow> RateLimitStore" where
  "cleanupExpiredEntries now rateLimitStore =
     (\<lambda>key. case rateLimitStore key of
               None \<Rightarrow> None
             | Some entry \<Rightarrow>
                 if now > RateLimitEntry.resetTime entry then None else Some entry)"

text \<open>
  What happens to the store over the life of the process: calls of \<open>checkRateLimit\<close>
  and runs of the periodic sweep, each with its reading of the clock, starting from the
  empty map that the module creates.
\<close>

datatype StoreEvent =
  Check jsstring RateLimitType int
| Sweep int

fun store_step :: "RateLimitStore \<Rightarrow> StoreEvent \<Rightarrow> RateLimitStore" where
  "store_step s (Check identifier type now) = snd (checkRateLimit identifier type now s)"
| "store_step s (Sweep now) = cleanupExpiredEntries now s"

definition store_after :: "StoreEvent list \<Rightarrow> RateLimitStore" where
  "store_after events = foldl store_step Map.empty events"

text \<open>
  An entry is within bounds when its key is the key of exactly one limit class and its
  count lies between 1 and the maximum of that class.
\<close>

definition entry_in_bounds :: "jsstring \<Rightarrow> RateLimitEntry \<Rightarrow> bool" where
  "entry_in_bounds key entry \<longleftrightarrow>
     (\<exists>type identifier. key = rate_key type identifier \<and>
        (\<forall>type' identifier'. key = rate_key type' identifier' \<longrightarrow> type' = type) \<and>
        1 \<le> count entry \<and> count entry \<le> maxAttempts (RATE_LIMITS type))"

definition store_inv :: "RateLimitStore \<Rightarrow> bool" where
  "store_inv s \<longleftrightarrow> (\<forall>key entry. s key = Some entry \<longrightarrow> entry_in_bounds key entry)"

section \<open>lib/middleware/rate-limit.ts\<close>

text \<open>\<open>Number.prototype.toString\<close> on an integer (below \<open>10^21\<close> in magnitude, where the
  source prints plain decimal digits).\<close>

definition number_toString :: "int \<Rightarrow> jsstring" where
  "number_toString n = (if n < 0 then cu CHR ''-'' # dec (nat (- n)) else dec (nat n))"

text \<open>\<open>Math.ceil(x / 1000)\<close> for an integer \<open>x\<close>.\<close>

definition ceil_div_1000 :: "int \<Rightarrow> int" where
  "ceil_div_1000 x = - ((- x) div 1000)"

record NextRequest =
  headers :: Headers

record NextResponse =
  body :: jsstring
  status :: int
  headers :: Headers

text \<open>
  \<open>withRateLimit\<close> returns an asynchronous function; here the result of that function
  on a request. The wrapped handler is a parameter: it either rejects (\<open>Inl\<close>) or
  resolves to a response; the store that is returned is the store after the call of
  \<open>checkRateLimit\<close> that \<open>withRateLimit\<close> makes itself. \<open>now\<close> is the reading of the clock inside \<open>checkRateLimit\<close>,
  \<open>now1\<close> and \<open>now2\<close> the two later readings of the denial branch. The body of the
  denial is what \<open>JSON.stringify\<close> prints for the object of the source.
\<close>

definition withRateLimit ::
  "(NextRequest \<Rightarrow> 'e + NextResponse) \<Rightarrow> RateLimitType \<Rightarrow> NextRequest \<Rightarrow> int \<Rightarrow> int \<Rightarrow> int \<Rightarrow>
   RateLimitStore \<Rightarrow> ('e + NextResponse) \<times> RateLimitStore"
where
  "withRateLimit handler rateLimitType req now now1 now2 rateLimitStore =
     (let clientIP = getClientIP (NextRequest.headers req);
          (rateLimitResult, store') = checkRateLimit clientIP rateLimitType now rateLimitStore
      in if \<not> allowed rateLimitResult then
           (Inr \<lparr>body =
                   str ''{\"error\":\"Too many requests. Please try again later.\",\"retryAfter\":'' @
                   number_toString (ceil_div_1000 (resetTime rateLimitResult - now1)) @
                   str ''}'',
                 status = 429,
                 headers =
                   headers_set (headers_set (headers_set (headers_set (headers_set Map.empty
                     (str ''Content-Type'') (str ''application/json''))
                     (str ''Retry-After'')
                       (number_toString (ceil_div_1000 (resetTime rateLimitResult - now2))))
                     (str ''X-RateLimit-Limit'') (str ''5''))
                     (str ''X-RateLimit-Remaining'') (number_toString (remaining rateLimitResult)))
                     (str ''X-RateLimit-Reset'') (number_toString (resetTime rateLimitResult))\<rparr>,
            store')
         else
           (case handler req of
              Inl e \<Rightarrow> (Inl e, store')
            | Inr response \<Rightarrow>
                (Inr (response\<lparr>headers :=
                   headers_set (headers_set (headers_set (headers response)
                     (str ''X-RateLimit-Limit'') (str ''5''))
                     (str ''X-RateLimit-Remaining'') (number_toString (remaining rateLimitResult)))
                     (str ''X-RateLimit-Reset'') (number_toString (resetTime rateLimitResult))\<rparr>),
                 store')))"

section \<open>app/lib/actions/auth-actions.ts\<close>

text \<open>
  Modelled from the spec: the form types \<open>LoginFormData\<close> and \<open>RegisterFormData\<close> of
  \<open>app/lib/types\<close>, which the specification gives as \<open>login{email,password}\<close> and
  \<open>register{email,password,name}\<close>.
\<close>

record LoginFormData =
  email :: jsstring
  password :: jsstring

record RegisterFormData =
  email :: jsstring
  password :: jsstring
  name :: jsstring

text \<open>
  The client of the authentication platform is a parameter of the handlers. Each of the
  three calls answers with the \<open>error\<close> field of the platform's response: \<open>None\<close> for
  \<open>null\<close>, or an error object with the platform's own message and code.
\<close>

record AuthError =
  message :: jsstring
  code :: jsstring

record SupabaseAuth =
  signInWithPassword :: "jsstring \<Rightarrow> jsstring \<Rightarrow> AuthError option"
  signUp :: "jsstring \<Rightarrow> jsstring \<Rightarrow> jsstring \<Rightarrow> AuthError option"
  signOut :: "AuthError option"

record ActionResult =
  error :: "jsstring option"

definition login :: "(jsstring \<Rightarrow> jsstring) \<Rightarrow> SupabaseAuth \<Rightarrow> LoginFormData \<Rightarrow> ActionResult" where
  "login toLowerCase supabase data =
     (let emailValidation = validateEmail toLowerCase (LoginFormData.email data);
          passwordValidation = validatePassword (LoginFormData.password data)
      in if length (ValidationResult.errors emailValidation) > 0 then
           \<lparr>error = Some (ValidationResult.errors emailValidation ! 0)\<rparr>
         else if length (PasswordValidation.errors passwordValidation) > 0 then
           \<lparr>error = Some (PasswordValidation.errors passwordValidation ! 0)\<rparr>
         else
           (case signInWithPassword supabase (sanitized emailValidation)
                   (LoginFormData.password data) of
              Some e \<Rightarrow> \<lparr>error = Some (str ''Invalid email or password'')\<rparr>
            | None \<Rightarrow> \<lparr>error = None\<rparr>))"

definition register ::
  "(jsstring \<Rightarrow> jsstring) \<Rightarrow> SupabaseAuth \<Rightarrow> RegisterFormData \<Rightarrow> ActionResult"
where
  "register toLowerCase supabase data =
     (let emailValidation = validateEmail toLowerCase (RegisterFormData.email data);
          passwordValidation = validatePassword (RegisterFormData.password data);
          nameValidation = validateName (name data)
      in if length (ValidationResult.errors emailValidation) > 0 then
           \<lparr>error = Some (ValidationResult.errors emailValidation ! 0)\<rparr>
         else if length (PasswordValidation.errors passwordValidation) > 0 then
           \<lparr>error = Some (PasswordValidation.errors passwordValidation ! 0)\<rparr>
         else if length (ValidationResult.errors nameValidation) > 0 then
           \<lparr>error = Some (ValidationResult.errors nameValidation ! 0)\<rparr>
         else
           (case signUp supabase (sanitized emailValidation) (RegisterFormData.password data)
                   (sanitized nameValidation) of
              Some e \<Rightarrow> \<lparr>error = Some (str ''Failed to create account. Please try again.'')\<rparr>
            | None \<Rightarrow> \<lparr>error = None\<rparr>))"

definition logout :: "SupabaseAuth \<Rightarrow> ActionResult" where
  "logout supabase =
     (case signOut supabase of
        Some e \<Rightarrow> \<lparr>error = Some (message e)\<rparr>
      | None \<Rightarrow> \<lparr>error = None\<rparr>)"

section \<open>Deleting a poll\<close>

text \<open>
  Modelled from the spec: \<open>deletePoll\<close> of \<open>app/lib/actions/poll-actions.ts\<close>, which
  is not among the sources. The specification (Authorization Gate, Delete/Update poll)
  says: fetch the poll's \<open>ownerId\<close>; fail with \<open>Forbidden\<close> unless the acting
  identity's id equals \<open>ownerId\<close>; an unauthenticated caller is always denied; the denial
  comes before any mutation is attempted, and it does not tell a missing poll from a
  poll of another owner. The polls of the platform are a map from poll ids, and the
  handler returns, with its result and the polls, the operations it asked of the platform.
\<close>

datatype Identity =
  Unauthenticated
| Regular jsstring
| Admin jsstring

fun identity_id :: "Identity \<Rightarrow> jsstring option" where
  "identity_id Unauthenticated = None"
| "identity_id (Regular uid) = Some uid"
| "identity_id (Admin uid) = Some uid"

record Poll =
  ownerId :: jsstring
  question :: jsstring
  options :: "jsstring list"
  createdAt :: int

type_synonym Polls = "jsstring \<rightharpoonup> Poll"

datatype ActionError = ValidationFailed "jsstring list" | RateLimited | Forbidden
  | Unauthenticated_error | UpstreamFailure

datatype PlatformOp = FetchOwner jsstring | DeleteRow jsstring

definition deletePoll ::
  "Identity \<Rightarrow> jsstring \<Rightarrow> Polls \<Rightarrow> (ActionError + unit) \<times> Polls \<times> PlatformOp list"
where
  "deletePoll identity pollId polls =
     (case identity_id identity of
        None \<Rightarrow> (Inl Forbidden, polls, [])
      | Some uid \<Rightarrow>
          (case polls pollId of
             None \<Rightarrow> (Inl Forbidden, polls, [FetchOwner pollId])
           | Some poll \<Rightarrow>
               if ownerId poll = uid then
                 (Inr (), polls(pollId := None), [FetchOwner pollId, DeleteRow pollId])
               else (Inl Forbidden, polls, [FetchOwner pollId])))"

section \<open>Properties of the sanitizers\<close>

lemma replace_all_absent:
  "x \<notin> set s \<Longrightarrow> x \<notin> set rep \<Longrightarrow> x \<notin> set (replace_all c rep s)"
  by (induction s) (auto simp: replace_all_def)

lemma replace_all_removes:
  "c \<notin> set rep \<Longrightarrow> c \<notin> set (replace_all c rep s)"
  by (induction s) (auto simp: replace_all_def)

lemma replace_all_present:
  "x \<in> set s \<Longrightarrow> x \<noteq> c \<Longrightarrow> x \<in> set (replace_all c rep s)"
  by (induction s) (auto simp: replace_all_def)

lemma replace_all_inserts:
  "c \<in> set s \<Longrightarrow> x \<in> set rep \<Longrightarrow> x \<in> set (replace_all c rep s)"
  by (induction s) (auto simp: replace_all_def)

lemma replace_all_Cons:
  "replace_all c rep (a # s) = (if a = c then rep else [a]) @ replace_all c rep s"
  by (simp add: replace_all_def)

lemma replace_all_length_ge:
  "rep \<noteq> [] \<Longrightarrow> length s \<le> length (replace_all c rep s)"
proof (induction s)
  case Nil
  then show ?case by (simp add: replace_all_def)
next
  case (Cons a s)
  have ih: "length s \<le> length (replace_all c rep s)"
    using Cons by simp
  have r: "1 \<le> length rep"
    using Cons.prems by (cases rep) simp_all
  show ?case
  proof (cases "a = c")
    case True
    then have "length (replace_all c rep (a # s)) = length rep + length (replace_all c rep s)"
      by (simp add: replace_all_Cons)
    with ih r show ?thesis by simp
  next
    case False
    then have "length (replace_all c rep (a # s)) = 1 + length (replace_all c rep s)"
      by (simp add: replace_all_Cons)
    with ih show ?thesis by simp
  qed
qed

lemma replace_all_length_gt:
  "c \<in> set s \<Longrightarrow> 1 < length rep \<Longrightarrow> length s < length (replace_all c rep s)"
proof (induction s)
  case Nil
  then show ?case by simp
next
  case (Cons a s)
  have ge: "length s \<le> length (replace_all c rep s)"
    using Cons.prems(2) by (intro replace_all_length_ge) auto
  show ?case
  proof (cases "a = c")
    case True
    then show ?thesis using ge Cons.prems(2) by (simp add: replace_all_def)
  next
    case False
    then have "c \<in> set s" using Cons.prems(1) by simp
    then have "length s < length (replace_all c rep s)"
      using Cons.IH Cons.prems(2) by simp
    then show ?thesis using False by (simp add: replace_all_def)
  qed
qed

text \<open>
  Claim C6. The output of \<open>sanitizeHtml\<close> and the output of \<open>sanitizeText\<close> contain no
  literal \<open><\<close> and no literal \<open>>\<close>. This holds for every input string, so in particular
  for the strings that contain \<open><script>\<close> or event-handler attributes.
\<close>

theorem sanitize_no_angle_brackets:
  "cu CHR ''<'' \<notin> set (sanitizeHtml s) \<and> cu CHR ''>'' \<notin> set (sanitizeHtml s) \<and>
   cu CHR ''<'' \<notin> set (sanitizeText s) \<and> cu CHR ''>'' \<notin> set (sanitizeText s)"
  unfolding sanitizeHtml_def sanitizeText_def
  by (intro conjI replace_all_absent replace_all_removes) (simp_all add: str_def cu_def)

lemma amp_in_sanitizeHtml:
  assumes "set s \<inter> escaped_units \<noteq> {}"
  shows "cu CHR ''&'' \<in> set (sanitizeHtml s)"
proof -
  let ?a = "cu CHR ''&''"
  define s1 where "s1 = replace_all (cu CHR ''&'') (str ''&amp;'') s"
  define s2 where "s2 = replace_all (cu CHR ''<'') (str ''&lt;'') s1"
  define s3 where "s3 = replace_all (cu CHR ''>'') (str ''&gt;'') s2"
  define s4 where "s4 = replace_all (cu CHR 0x22) (str ''&quot;'') s3"
  define s5 where "s5 = replace_all (cu CHR 0x27) (str ''&#x27;'') s4"
  define s6 where "s6 = replace_all (cu CHR ''/'') (str ''&#x2F;'') s5"
  have res: "sanitizeHtml s = s6"
    by (simp add: sanitizeHtml_def s1_def s2_def s3_def s4_def s5_def s6_def)
  have k1: "?a \<in> set s1 \<Longrightarrow> ?a \<in> set s2"
    unfolding s2_def by (rule replace_all_present) (simp_all add: cu_def)
  have k2: "?a \<in> set s2 \<Longrightarrow> ?a \<in> set s3"
    unfolding s3_def by (rule replace_all_present) (simp_all add: cu_def)
  have k3: "?a \<in> set s3 \<Longrightarrow> ?a \<in> set s4"
    unfolding s4_def by (rule replace_all_present) (simp_all add: cu_def)
  have k4: "?a \<in> set s4 \<Longrightarrow> ?a \<in> set s5"
    unfolding s5_def by (rule replace_all_present) (simp_all add: cu_def)
  have k5: "?a \<in> set s5 \<Longrightarrow> ?a \<in> set s6"
    unfolding s6_def by (rule replace_all_present) (simp_all add: cu_def)
  have p1: "x \<in> set s \<Longrightarrow> x \<noteq> ?a \<Longrightarrow> x \<in> set s1" for x
    unfolding s1_def by (rule replace_all_present)
  have p2: "x \<in> set s1 \<Longrightarrow> x \<noteq> cu CHR ''<'' \<Longrightarrow> x \<in> set s2" for x
    unfolding s2_def by (rule replace_all_present)
  have p3: "x \<in> set s2 \<Longrightarrow> x \<noteq> cu CHR ''>'' \<Longrightarrow> x \<in> set s3" for x
    unfolding s3_def by (rule replace_all_present)
  have p4: "x \<in> set s3 \<Longrightarrow> x \<noteq> cu CHR 0x22 \<Longrightarrow> x \<in> set s4" for x
    unfolding s4_def by (rule replace_all_present)
  have p5: "x \<in> set s4 \<Longrightarrow> x \<noteq> cu CHR 0x27 \<Longrightarrow> x \<in> set s5" for x
    unfolding s5_def by (rule replace_all_present)
  have i1: "?a \<in> set s \<Longrightarrow> ?a \<in> set s1"
    unfolding s1_def by (rule replace_all_inserts) (simp_all add: str_def)
  have i2: "cu CHR ''<'' \<in> set s1 \<Longrightarrow> ?a \<in> set s2"
    unfolding s2_def by (rule replace_all_inserts) (simp_all add: str_def)
  have i3: "cu CHR ''>'' \<in> set s2 \<Longrightarrow> ?a \<in> set s3"
    unfolding s3_def by (rule replace_all_inserts) (simp_all add: str_def)
  have i4: "cu CHR 0x22 \<in> set s3 \<Longrightarrow> ?a \<in> set s4"
    unfolding s4_def by (rule replace_all_inserts) (simp_all add: str_def)
  have i5: "cu CHR 0x27 \<in> set s4 \<Longrightarrow> ?a \<in> set s5"
    unfolding s5_def by (rule replace_all_inserts) (simp_all add: str_def)
  have i6: "cu CHR ''/'' \<in> set s5 \<Longrightarrow> ?a \<in> set s6"
    unfolding s6_def by (rule replace_all_inserts) (simp_all add: str_def)
  have ne: "cu CHR ''<'' \<noteq> ?a" "cu CHR ''>'' \<noteq> ?a" "cu CHR 0x22 \<noteq> ?a" "cu CHR 0x27 \<noteq> ?a"
    "cu CHR ''/'' \<noteq> ?a" "cu CHR ''>'' \<noteq> cu CHR ''<''" "cu CHR 0x22 \<noteq> cu CHR ''<''"
    "cu CHR 0x27 \<noteq> cu CHR ''<''" "cu CHR ''/'' \<noteq> cu CHR ''<''" "cu CHR 0x22 \<noteq> cu CHR ''>''"
    "cu CHR 0x27 \<noteq> cu CHR ''>''" "cu CHR ''/'' \<noteq> cu CHR ''>''" "cu CHR 0x27 \<noteq> cu CHR 0x22"
    "cu CHR ''/'' \<noteq> cu CHR 0x22" "cu CHR ''/'' \<noteq> cu CHR 0x27"
    by (simp_all add: cu_def)
  from assms obtain x where x: "x \<in> set s" "x \<in> escaped_units" by auto
  from x(2) consider "x = ?a" | "x = cu CHR ''<''" | "x = cu CHR ''>''" | "x = cu CHR 0x22"
    | "x = cu CHR 0x27" | "x = cu CHR ''/''"
    unfolding escaped_units_def by blast
  then have "?a \<in> set s6"
  proof cases
    case 1 then show ?thesis using x(1) i1 k1 k2 k3 k4 k5 by blast
  next
    case 2 then show ?thesis using x(1) p1 ne i2 k2 k3 k4 k5 by blast
  next
    case 3 then show ?thesis using x(1) p1 p2 ne i3 k3 k4 k5 by blast
  next
    case 4 then show ?thesis using x(1) p1 p2 p3 ne i4 k4 k5 by blast
  next
    case 5 then show ?thesis using x(1) p1 p2 p3 p4 ne i5 k5 by blast
  next
    case 6 then show ?thesis using x(1) p1 p2 p3 p4 p5 ne i6 by blast
  qed
  then show ?thesis by (simp add: res)
qed

lemma sanitizeHtml_grows:
  assumes "cu CHR ''&'' \<in> set t"
  shows "length t < length (sanitizeHtml t)"
proof -
  define s1 where "s1 = replace_all (cu CHR ''&'') (str ''&amp;'') t"
  define s2 where "s2 = replace_all (cu CHR ''<'') (str ''&lt;'') s1"
  define s3 where "s3 = replace_all (cu CHR ''>'') (str ''&gt;'') s2"
  define s4 where "s4 = replace_all (cu CHR 0x22) (str ''&quot;'') s3"
  define s5 where "s5 = replace_all (cu CHR 0x27) (str ''&#x27;'') s4"
  define s6 where "s6 = replace_all (cu CHR ''/'') (str ''&#x2F;'') s5"
  have res: "sanitizeHtml t = s6"
    by (simp add: sanitizeHtml_def s1_def s2_def s3_def s4_def s5_def s6_def)
  have "length t < length s1"
    unfolding s1_def using assms by (rule replace_all_length_gt) (simp add: str_def)
  also have "\<dots> \<le> length s2"
    unfolding s2_def by (rule replace_all_length_ge) (simp add: str_def)
  also have "\<dots> \<le> length s3"
    unfolding s3_def by (rule replace_all_length_ge) (simp add: str_def)
  also have "\<dots> \<le> length s4"
    unfolding s4_def by (rule replace_all_length_ge) (simp add: str_def)
  also have "\<dots> \<le> length s5"
    unfolding s5_def by (rule replace_all_length_ge) (simp add: str_def)
  also have "\<dots> \<le> length s6"
    unfolding s6_def by (rule replace_all_length_ge) (simp add: str_def)
  finally show ?thesis by (simp add: res)
qed

text \<open>
  Claim C8. \<open>sanitizeHtml\<close> is not idempotent: some string changes again under a second
  application. Every string that contains one of the six escaped characters is such a
  string: its image contains an \<open>&\<close>, which the second application escapes again.
\<close>

theorem sanitizeHtml_not_idempotent:
  "(\<exists>s. sanitizeHtml (sanitizeHtml s) \<noteq> sanitizeHtml s) \<and>
   (\<forall>s. set s \<inter> escaped_units \<noteq> {} \<longrightarrow>
      cu CHR ''&'' \<in> set (sanitizeHtml s) \<and>
      sanitizeHtml (sanitizeHtml s) \<noteq> sanitizeHtml s)"
proof -
  have gen: "cu CHR ''&'' \<in> set (sanitizeHtml s) \<and> sanitizeHtml (sanitizeHtml s) \<noteq> sanitizeHtml s"
    if "set s \<inter> escaped_units \<noteq> {}" for s
  proof -
    have a: "cu CHR ''&'' \<in> set (sanitizeHtml s)"
      using that by (rule amp_in_sanitizeHtml)
    then have "length (sanitizeHtml s) < length (sanitizeHtml (sanitizeHtml s))"
      by (rule sanitizeHtml_grows)
    then have "sanitizeHtml (sanitizeHtml s) \<noteq> sanitizeHtml s"
      by auto
    with a show ?thesis by simp
  qed
  have "set (str ''<'') \<inter> escaped_units \<noteq> {}"
    by (simp add: str_def escaped_units_def)
  then have "sanitizeHtml (sanitizeHtml (str ''<'')) \<noteq> sanitizeHtml (str ''<'')"
    using gen by blast
  then show ?thesis using gen by blast
qed

theorem sanitizeHtml_not_idempotent_witness:
  "set (str ''a<b'') \<inter> escaped_units \<noteq> {} \<and>
   sanitizeHtml (str ''a<b'') = str ''a&lt;b'' \<and>
   sanitizeHtml (sanitizeHtml (str ''a<b'')) = str ''a&amp;lt;b'' \<and>
   sanitizeHtml (sanitizeHtml (str ''a<b'')) \<noteq> sanitizeHtml (str ''a<b'')"
proof -
  have h: "set (str ''a<b'') \<inter> escaped_units \<noteq> {}"
    by (simp add: str_def escaped_units_def cu_def)
  have e1: "sanitizeHtml (str ''a<b'') = str ''a&lt;b''"
    by (simp add: sanitizeHtml_def replace_all_def str_def cu_def)
  have e2: "sanitizeHtml (str ''a&lt;b'') = str ''a&amp;lt;b''"
    by (simp add: sanitizeHtml_def replace_all_def str_def cu_def)
  from sanitizeHtml_not_idempotent h
  have "sanitizeHtml (sanitizeHtml (str ''a<b'')) \<noteq> sanitizeHtml (str ''a<b'')"
    by blast
  with h e1 e2 show ?thesis by simp
qed

section \<open>Properties of the validators\<close>

lemma lookahead_test_iff: "lookahead_test cls s = list_ex cls s"
proof (induction s)
  case Nil
  then show ?case by simp
next
  case (Cons c cs)
  have "dot_star_then cls xs \<Longrightarrow> list_ex cls xs" for xs
    by (induction xs) auto
  with Cons show ?case by auto
qed

lemma options_loop_eq:
  "options_loop i xs san errs =
     (san @ filter option_accepted (map clean_option xs),
      errs @ concat (map (\<lambda>k. option_error (i + k + 1) (clean_option (xs ! k))) [0..<length xs]))"
proof (induction xs arbitrary: i san errs)
  case Nil
  then show ?case by simp
next
  case (Cons x xs)
  have shift: "map (\<lambda>k. option_error (i + k + 1) (clean_option ((x # xs) ! k))) [0..<length (x # xs)]
      = option_error (i + 1) (clean_option x) #
        map (\<lambda>k. option_error (Suc i + k + 1) (clean_option (xs ! k))) [0..<length xs]"
    by (simp add: map_upt_Suc del: upt_Suc)
  show ?case
    unfolding shift
    by (simp add: Cons.IH Let_def option_error_def option_accepted_def
        clean_option_def [symmetric])
qed

lemma set_size_iff: "set_size xs \<noteq> length xs \<longleftrightarrow> \<not> distinct xs"
  unfolding set_size_def by (metis distinct_remdups length_remdups_eq remdups_id_iff_distinct)

lemmas eval_simps = str_def cu_def replace_all_def trim_def is_space_def sanitizeText_def

text \<open>
  Claim C5. \<open>validatePollOptions\<close> on a list with fewer than 2 or more than 10 entries
  returns an empty sanitized list and exactly one error, which is the error about the
  number of options and not an error about an option. On a list with 2 to 10 entries the
  sanitized list holds exactly the accepted cleaned options, in order; the errors are one
  error for each option whose cleaned form is empty or longer than 200 units, naming its
  1-based index, followed by exactly one duplicate error if and only if the sanitized list
  contains two equal strings.
\<close>

theorem validatePollOptions_spec:
  "(length opts < 2 \<or> length opts > 10 \<longrightarrow>
      sanitized (validatePollOptions opts) = [] \<and>
      ValidationResult.errors (validatePollOptions opts) =
        [if length opts < 2 then str ''At least 2 options are required''
         else str ''Maximum 10 options allowed'']) \<and>
   (2 \<le> length opts \<and> length opts \<le> 10 \<longrightarrow>
      sanitized (validatePollOptions opts) =
        filter option_accepted (map clean_option opts) \<and>
      ValidationResult.errors (validatePollOptions opts) =
        per_option_errors opts @
        (if distinct (sanitized (validatePollOptions opts)) then []
         else [str ''Duplicate options are not allowed'']))"
  by (auto simp: validatePollOptions_def options_loop_eq set_size_iff per_option_errors_def)

theorem validatePollOptions_spec_witness:
  "(length [str ''A''] < 2 \<or> length [str ''A''] > 10) \<and>
   sanitized (validatePollOptions [str ''A'']) = [] \<and>
   ValidationResult.errors (validatePollOptions [str ''A'']) =
     [str ''At least 2 options are required''] \<and>
   (2 \<le> length [str ''A'', str '' '', str ''<b>A</b> ''] \<and>
    length [str ''A'', str '' '', str ''<b>A</b> ''] \<le> 10) \<and>
   sanitized (validatePollOptions [str ''A'', str '' '', str ''<b>A</b> '']) =
     [str ''A'', str ''A''] \<and>
   ValidationResult.errors (validatePollOptions [str ''A'', str '' '', str ''<b>A</b> '']) =
     [str ''Option 2 cannot be empty'', str ''Duplicate options are not allowed'']"
proof -
  let ?opts = "[str ''A'', str '' '', str ''<b>A</b> '']"
  have c: "map clean_option ?opts = [str ''A'', [], str ''A'']"
    by (simp add: clean_option_def eval_simps)
  have s: "filter option_accepted (map clean_option ?opts) = [str ''A'', str ''A'']"
    unfolding c by (simp add: option_accepted_def str_def)
  have e: "per_option_errors ?opts = [str ''Option 2 cannot be empty'']"
    using c by (simp add: per_option_errors_def upt_rec option_error_def dec.simps str_def cu_def)
  have h1: "length [str ''A''] < 2 \<or> length [str ''A''] > 10"
    by simp
  have h2: "2 \<le> length ?opts \<and> length ?opts \<le> 10"
    by simp
  note r1 = validatePollOptions_spec [of "[str ''A'']", THEN conjunct1, THEN mp, OF h1]
  note r2 = validatePollOptions_spec [of ?opts, THEN conjunct2, THEN mp, OF h2]
  have san: "sanitized (validatePollOptions ?opts) = [str ''A'', str ''A'']"
    using r2 s by simp
  have "ValidationResult.errors (validatePollOptions ?opts) =
      [str ''Option 2 cannot be empty''] @
      (if distinct [str ''A'', str ''A''] then [] else [str ''Duplicate options are not allowed''])"
    using r2 unfolding san e by (rule conjunct2)
  then have err: "ValidationResult.errors (validatePollOptions ?opts) =
      [str ''Option 2 cannot be empty'', str ''Duplicate options are not allowed'']"
    by simp
  from r1 have "sanitized (validatePollOptions [str ''A'']) = [] \<and>
      ValidationResult.errors (validatePollOptions [str ''A'']) =
        [str ''At least 2 options are required'']"
    by simp
  with h1 h2 san err show ?thesis
    by blast
qed

text \<open>
  Claim C7. \<open>validatePassword\<close> checks its rules one after the other (required, at least
  8 units, at most 128 units, a lowercase letter, an uppercase letter, a digit) and
  reports only the first rule that fails, so it returns at most one error; the password
  \<open>short\<close> gets the minimum-length error and \<open>Abcdefg1\<close> gets no error.
\<close>

theorem validatePassword_sequential:
  "errors (validatePassword pw) =
     (if pw = [] then [str ''Password is required'']
      else if length pw < 8 then [str ''Password must be at least 8 characters long'']
      else if length pw > 128 then [str ''Password is too long'']
      else if \<not> list_ex is_lower pw then
        [str ''Password must contain at least one lowercase letter'']
      else if \<not> list_ex is_upper pw then
        [str ''Password must contain at least one uppercase letter'']
      else if \<not> list_ex is_digit pw then
        [str ''Password must contain at least one number'']
      else []) \<and>
   length (errors (validatePassword pw)) \<le> 1 \<and>
   errors (validatePassword (str ''short'')) =
     [str ''Password must be at least 8 characters long''] \<and>
   errors (validatePassword (str ''Abcdefg1'')) = []"
proof -
  have "errors (validatePassword (str ''Abcdefg1'')) = []"
    by (simp add: validatePassword_def lookahead_test_iff str_def cu_def
        is_lower_def is_upper_def is_digit_def)
  moreover have "errors (validatePassword (str ''short'')) =
     [str ''Password must be at least 8 characters long'']"
    by (simp add: validatePassword_def str_def)
  ultimately show ?thesis
    by (simp add: validatePassword_def lookahead_test_iff)
qed

section \<open>Properties of the rate limiter\<close>

lemma checkRateLimit_fresh:
  "rateLimitStore (rate_key type identifier) = None \<or>
   (\<exists>entry. rateLimitStore (rate_key type identifier) = Some entry \<and>
      now > RateLimitEntry.resetTime entry) \<Longrightarrow>
   checkRateLimit identifier type now rateLimitStore =
     (\<lparr>allowed = True, remaining = maxAttempts (RATE_LIMITS type) - 1,
       resetTime = now + windowMs (RATE_LIMITS type)\<rparr>,
      rateLimitStore(rate_key type identifier \<mapsto>
        \<lparr>count = 1, resetTime = now + windowMs (RATE_LIMITS type)\<rparr>))"
  by (auto simp: checkRateLimit_def Let_def)

lemma checkRateLimit_denied:
  "rateLimitStore (rate_key type identifier) = Some entry \<Longrightarrow>
   now \<le> RateLimitEntry.resetTime entry \<Longrightarrow>
   maxAttempts (RATE_LIMITS type) \<le> count entry \<Longrightarrow>
   checkRateLimit identifier type now rateLimitStore =
     (\<lparr>allowed = False, remaining = 0, resetTime = RateLimitEntry.resetTime entry\<rparr>,
      rateLimitStore)"
  by (simp add: checkRateLimit_def Let_def)

lemma checkRateLimit_counted:
  "rateLimitStore (rate_key type identifier) = Some entry \<Longrightarrow>
   now \<le> RateLimitEntry.resetTime entry \<Longrightarrow>
   count entry < maxAttempts (RATE_LIMITS type) \<Longrightarrow>
   checkRateLimit identifier type now rateLimitStore =
     (\<lparr>allowed = True, remaining = maxAttempts (RATE_LIMITS type) - (count entry + 1),
       resetTime = RateLimitEntry.resetTime entry\<rparr>,
      rateLimitStore(rate_key type identifier \<mapsto> entry\<lparr>count := count entry + 1\<rparr>))"
  by (simp add: checkRateLimit_def Let_def)

lemma four_calls_aux:
  assumes "store0 (rate_key PollCreation identifier) = None"
    and "t2 \<le> t1 + 60000" and "t3 \<le> t1 + 60000" and "t4 \<le> t1 + 60000"
    and "checkRateLimit identifier PollCreation t1 store0 = (r1, store1)"
    and "checkRateLimit identifier PollCreation t2 store1 = (r2, store2)"
    and "checkRateLimit identifier PollCreation t3 store2 = (r3, store3)"
    and "checkRateLimit identifier PollCreation t4 store3 = (r4, store4)"
  shows "allowed r1 \<and> remaining r1 = 2 \<and> allowed r2 \<and> remaining r2 = 1 \<and>
         allowed r3 \<and> remaining r3 = 0 \<and> \<not> allowed r4 \<and> remaining r4 = 0"
proof -
  let ?k = "rate_key PollCreation identifier"
  have c1: "r1 = \<lparr>allowed = True, remaining = 2, resetTime = t1 + 60000\<rparr>"
    "store1 = store0(?k \<mapsto> \<lparr>count = 1, resetTime = t1 + 60000\<rparr>)"
    using assms(5) checkRateLimit_fresh [of store0 PollCreation "identifier" t1] assms(1)
    by simp_all
  have c2: "r2 = \<lparr>allowed = True, remaining = 1, resetTime = t1 + 60000\<rparr>"
    "store2 = store1(?k \<mapsto> \<lparr>count = 2, resetTime = t1 + 60000\<rparr>)"
    using assms(6) assms(2)
      checkRateLimit_counted [of store1 PollCreation "identifier"
        "\<lparr>count = 1, resetTime = t1 + 60000\<rparr>" t2]
    by (simp_all add: c1(2))
  have c3: "r3 = \<lparr>allowed = True, remaining = 0, resetTime = t1 + 60000\<rparr>"
    "store3 = store2(?k \<mapsto> \<lparr>count = 3, resetTime = t1 + 60000\<rparr>)"
    using assms(7) assms(3)
      checkRateLimit_counted [of store2 PollCreation "identifier"
        "\<lparr>count = 2, resetTime = t1 + 60000\<rparr>" t3]
    by (simp_all add: c2(2))
  have c4: "r4 = \<lparr>allowed = False, remaining = 0, resetTime = t1 + 60000\<rparr>"
    using assms(8) assms(4)
      checkRateLimit_denied [of store3 PollCreation "identifier"
        "\<lparr>count = 3, resetTime = t1 + 60000\<rparr>" t4]
    by (simp add: c3(2))
  show ?thesis
    by (simp add: c1(1) c2(1) c3(1) c4)
qed

text \<open>
  Claim C2. From a store with no entry for the identifier, four calls of
  \<open>checkRateLimit\<close> for the class \<open>pollCreation\<close> whose later three readings of the clock
  are not past the end of the window that the first call opens (one minute after it):
  the first three are allowed with 2, 1 and 0 remaining, the fourth is denied with 0
  remaining.
\<close>

theorem pollCreation_four_calls:
  assumes "store0 (rate_key PollCreation identifier) = None"
    and "t2 \<le> t1 + 60000" and "t3 \<le> t1 + 60000" and "t4 \<le> t1 + 60000"
  shows
    "(let (r1, store1) = checkRateLimit identifier PollCreation t1 store0;
          (r2, store2) = checkRateLimit identifier PollCreation t2 store1;
          (r3, store3) = checkRateLimit identifier PollCreation t3 store2;
          (r4, store4) = checkRateLimit identifier PollCreation t4 store3
      in allowed r1 \<and> remaining r1 = 2 \<and> allowed r2 \<and> remaining r2 = 1 \<and>
         allowed r3 \<and> remaining r3 = 0 \<and> \<not> allowed r4 \<and> remaining r4 = 0)"
proof -
  obtain r1 store1 where e1: "checkRateLimit identifier PollCreation t1 store0 = (r1, store1)"
    by (cases "checkRateLimit identifier PollCreation t1 store0")
  obtain r2 store2 where e2: "checkRateLimit identifier PollCreation t2 store1 = (r2, store2)"
    by (cases "checkRateLimit identifier PollCreation t2 store1")
  obtain r3 store3 where e3: "checkRateLimit identifier PollCreation t3 store2 = (r3, store3)"
    by (cases "checkRateLimit identifier PollCreation t3 store2")
  obtain r4 store4 where e4: "checkRateLimit identifier PollCreation t4 store3 = (r4, store4)"
    by (cases "checkRateLimit identifier PollCreation t4 store3")
  from four_calls_aux [OF assms e1 e2 e3 e4] show ?thesis
    by (simp add: e1 e2 e3 e4)
qed

theorem pollCreation_four_calls_witness:
  "Map.empty (rate_key PollCreation (str ''203.0.113.7'')) = (None :: RateLimitEntry option) \<and>
   (2000 :: int) \<le> 1000 + 60000 \<and> (30000 :: int) \<le> 1000 + 60000 \<and>
   (61000 :: int) \<le> 1000 + 60000 \<and>
   (let (r1, store1) = checkRateLimit (str ''203.0.113.7'') PollCreation 1000 Map.empty;
        (r2, store2) = checkRateLimit (str ''203.0.113.7'') PollCreation 2000 store1;
        (r3, store3) = checkRateLimit (str ''203.0.113.7'') PollCreation 30000 store2;
        (r4, store4) = checkRateLimit (str ''203.0.113.7'') PollCreation 61000 store3
    in allowed r1 \<and> remaining r1 = 2 \<and> allowed r2 \<and> remaining r2 = 1 \<and>
       allowed r3 \<and> remaining r3 = 0 \<and> \<not> allowed r4 \<and> remaining r4 = 0)"
proof -
  have h0: "Map.empty (rate_key PollCreation (str ''203.0.113.7'')) = (None :: RateLimitEntry option)"
    by simp
  have h2: "(2000 :: int) \<le> 1000 + 60000" and h3: "(30000 :: int) \<le> 1000 + 60000"
    and h4: "(61000 :: int) \<le> 1000 + 60000"
    by simp_all
  from pollCreation_four_calls [OF h0 h2 h3 h4] h0 h2 h3 h4 show ?thesis
    by blast
qed

text \<open>
  Claim C4. When the store has no entry for the key, or the clock is past the
  \<open>resetTime\<close> of the stored entry, \<open>checkRateLimit\<close> replaces the entry by one with
  count 1 and \<open>resetTime = now + windowMs\<close> of the class, and returns allowed with
  \<open>maxAttempts - 1\<close> remaining.
\<close>

theorem checkRateLimit_new_window:
  assumes "rateLimitStore (rate_key type identifier) = None \<or>
     (\<exists>entry. rateLimitStore (rate_key type identifier) = Some entry \<and>
        now > RateLimitEntry.resetTime entry)"
  shows "checkRateLimit identifier type now rateLimitStore =
     (\<lparr>allowed = True, remaining = maxAttempts (RATE_LIMITS type) - 1,
       resetTime = now + windowMs (RATE_LIMITS type)\<rparr>,
      rateLimitStore(rate_key type identifier \<mapsto>
        \<lparr>count = 1, resetTime = now + windowMs (RATE_LIMITS type)\<rparr>))"
  using assms by (auto simp: checkRateLimit_def Let_def)

theorem checkRateLimit_new_window_witness:
  "checkRateLimit (str ''203.0.113.7'') Auth 5000 Map.empty =
     (\<lparr>allowed = True, remaining = 4, resetTime = 905000\<rparr>,
      [rate_key Auth (str ''203.0.113.7'') \<mapsto> \<lparr>count = 1, resetTime = 905000\<rparr>]) \<and>
   checkRateLimit (str ''203.0.113.7'') Api 70001
       [rate_key Api (str ''203.0.113.7'') \<mapsto> \<lparr>count = 30, resetTime = 70000\<rparr>] =
     (\<lparr>allowed = True, remaining = 29, resetTime = 130001\<rparr>,
      [rate_key Api (str ''203.0.113.7'') \<mapsto> \<lparr>count = 1, resetTime = 130001\<rparr>])"
proof -
  let ?i = "str ''203.0.113.7''"
  let ?s = "[rate_key Api ?i \<mapsto> \<lparr>count = 30, resetTime = 70000\<rparr>]"
  have h1: "(Map.empty :: RateLimitStore) (rate_key Auth ?i) = None \<or>
     (\<exists>entry. (Map.empty :: RateLimitStore) (rate_key Auth ?i) = Some entry \<and>
        5000 > RateLimitEntry.resetTime entry)"
    by simp
  have h2: "?s (rate_key Api ?i) = None \<or>
     (\<exists>entry. ?s (rate_key Api ?i) = Some entry \<and> 70001 > RateLimitEntry.resetTime entry)"
    by simp
  from checkRateLimit_new_window [of Map.empty Auth ?i 5000, OF h1]
    checkRateLimit_new_window [of ?s Api ?i 70001, OF h2]
  show ?thesis by simp
qed

lemma rate_key_inject:
  "rate_key t i = rate_key t' i' \<Longrightarrow> t = t' \<and> i = i'"
  by (cases t; cases t') (simp_all add: rate_key_def str_def cu_def)

lemma maxAttempts_ge_1: "1 \<le> maxAttempts (RATE_LIMITS t)"
  by (cases t) simp_all

lemma entry_in_bounds_rate_key:
  "entry_in_bounds (rate_key t i) e \<longleftrightarrow> 1 \<le> count e \<and> count e \<le> maxAttempts (RATE_LIMITS t)"
  unfolding entry_in_bounds_def using rate_key_inject by blast

lemma checkRateLimit_cases:
  obtains
    (fresh) "snd (checkRateLimit i t now s) =
        s(rate_key t i \<mapsto> \<lparr>count = 1, resetTime = now + windowMs (RATE_LIMITS t)\<rparr>)"
      "allowed (fst (checkRateLimit i t now s))"
      "s (rate_key t i) = None \<or>
        (\<exists>e. s (rate_key t i) = Some e \<and> now > RateLimitEntry.resetTime e)"
  | (denied) e where "s (rate_key t i) = Some e" "now \<le> RateLimitEntry.resetTime e"
      "maxAttempts (RATE_LIMITS t) \<le> count e"
      "snd (checkRateLimit i t now s) = s" "\<not> allowed (fst (checkRateLimit i t now s))"
  | (counted) e where "s (rate_key t i) = Some e" "now \<le> RateLimitEntry.resetTime e"
      "count e < maxAttempts (RATE_LIMITS t)"
      "snd (checkRateLimit i t now s) = s(rate_key t i \<mapsto> e\<lparr>count := count e + 1\<rparr>)"
      "allowed (fst (checkRateLimit i t now s))"
proof (cases "s (rate_key t i)")
  case None
  then show ?thesis
    by (intro fresh) (simp_all add: checkRateLimit_def Let_def)
next
  case (Some e)
  show ?thesis
  proof (cases "now > RateLimitEntry.resetTime e")
    case True
    with Some show ?thesis
      by (intro fresh) (simp_all add: checkRateLimit_def Let_def)
  next
    case False
    show ?thesis
    proof (cases "maxAttempts (RATE_LIMITS t) \<le> count e")
      case True
      with Some False show ?thesis
        by (intro denied [of e]) (simp_all add: checkRateLimit_def Let_def)
    next
      case False
      with Some \<open>\<not> now > RateLimitEntry.resetTime e\<close> show ?thesis
        by (intro counted [of e]) (simp_all add: checkRateLimit_def Let_def)
    qed
  qed
qed

lemma store_inv_checkRateLimit:
  assumes "store_inv s"
  shows "store_inv (snd (checkRateLimit i t now s))"
proof (cases rule: checkRateLimit_cases [of i t now s])
  case fresh
  have "entry_in_bounds (rate_key t i)
      \<lparr>count = 1, resetTime = now + windowMs (RATE_LIMITS t)\<rparr>"
    using maxAttempts_ge_1 [of t] by (simp add: entry_in_bounds_rate_key)
  with assms show ?thesis
    unfolding fresh(1) store_inv_def by auto
next
  case (denied e)
  with assms show ?thesis by simp
next
  case (counted e)
  from assms counted(1) have "entry_in_bounds (rate_key t i) e"
    unfolding store_inv_def by blast
  then have "1 \<le> count e"
    by (simp add: entry_in_bounds_rate_key)
  with counted(3) have "entry_in_bounds (rate_key t i) (e\<lparr>count := count e + 1\<rparr>)"
    by (simp add: entry_in_bounds_rate_key)
  with assms show ?thesis
    unfolding counted(4) store_inv_def by auto
qed

lemma store_inv_cleanup:
  "store_inv s \<Longrightarrow> store_inv (cleanupExpiredEntries now s)"
  by (auto simp: store_inv_def cleanupExpiredEntries_def split: option.splits if_splits)

lemma store_inv_step: "store_inv s \<Longrightarrow> store_inv (store_step s ev)"
  by (cases ev) (simp_all add: store_inv_checkRateLimit store_inv_cleanup)

lemma store_inv_foldl: "store_inv s \<Longrightarrow> store_inv (foldl store_step s evs)"
  by (induction evs arbitrary: s) (simp_all add: store_inv_step)

lemma store_inv_store_after: "store_inv (store_after evs)"
  unfolding store_after_def by (rule store_inv_foldl) (simp add: store_inv_def)

text \<open>
  Claim C3. \<open>checkRateLimit\<close> denies a request exactly when the stored entry's window
  has not expired and its count has reached the maximum of the class, and then it
  returns the store as it was. Consequently, after any sequence of \<open>checkRateLimit\<close>
  calls (and sweeps) from the empty store, every entry is the entry of one limit class
  and its count lies between 1 and the maximum of that class.
\<close>

theorem denied_request_keeps_store:
  "(\<not> allowed (fst (checkRateLimit identifier type now s)) \<longleftrightarrow>
      (\<exists>entry. s (rate_key type identifier) = Some entry \<and>
         now \<le> RateLimitEntry.resetTime entry \<and>
         maxAttempts (RATE_LIMITS type) \<le> count entry)) \<and>
   (\<not> allowed (fst (checkRateLimit identifier type now s)) \<longrightarrow>
      snd (checkRateLimit identifier type now s) = s) \<and>
   (\<forall>key entry. store_after events key = Some entry \<longrightarrow> entry_in_bounds key entry)"
proof -
  have "\<forall>key entry. store_after events key = Some entry \<longrightarrow> entry_in_bounds key entry"
    using store_inv_store_after [of events] by (simp add: store_inv_def)
  moreover have "(\<not> allowed (fst (checkRateLimit identifier type now s)) \<longleftrightarrow>
      (\<exists>entry. s (rate_key type identifier) = Some entry \<and>
         now \<le> RateLimitEntry.resetTime entry \<and>
         maxAttempts (RATE_LIMITS type) \<le> count entry)) \<and>
   (\<not> allowed (fst (checkRateLimit identifier type now s)) \<longrightarrow>
      snd (checkRateLimit identifier type now s) = s)"
    by (cases rule: checkRateLimit_cases [of "identifier" type now s]) auto
  ultimately show ?thesis by blast
qed

theorem denied_request_keeps_store_witness:
  "store_after [Check (str ''203.0.113.7'') PollCreation 1000,
      Check (str ''203.0.113.7'') PollCreation 2000,
      Check (str ''203.0.113.7'') PollCreation 3000]
     (rate_key PollCreation (str ''203.0.113.7'')) = Some \<lparr>count = 3, resetTime = 61000\<rparr> \<and>
   \<not> allowed (fst (checkRateLimit (str ''203.0.113.7'') PollCreation 4000
      (store_after [Check (str ''203.0.113.7'') PollCreation 1000,
         Check (str ''203.0.113.7'') PollCreation 2000,
         Check (str ''203.0.113.7'') PollCreation 3000]))) \<and>
   snd (checkRateLimit (str ''203.0.113.7'') PollCreation 4000
      (store_after [Check (str ''203.0.113.7'') PollCreation 1000,
         Check (str ''203.0.113.7'') PollCreation 2000,
         Check (str ''203.0.113.7'') PollCreation 3000])) =
     store_after [Check (str ''203.0.113.7'') PollCreation 1000,
       Check (str ''203.0.113.7'') PollCreation 2000,
       Check (str ''203.0.113.7'') PollCreation 3000] \<and>
   entry_in_bounds (rate_key PollCreation (str ''203.0.113.7''))
     \<lparr>count = 3, resetTime = 61000\<rparr>"
proof -
  let ?i = "str ''203.0.113.7''"
  let ?evs = "[Check ?i PollCreation 1000, Check ?i PollCreation 2000,
    Check ?i PollCreation 3000]"
  have v: "store_after ?evs (rate_key PollCreation ?i) = Some \<lparr>count = 3, resetTime = 61000\<rparr>"
    by (simp add: store_after_def checkRateLimit_def Let_def)
  note t = denied_request_keeps_store [of ?i PollCreation 4000 "store_after ?evs" ?evs]
  have d: "\<not> allowed (fst (checkRateLimit ?i PollCreation 4000 (store_after ?evs)))"
    using t v by simp
  with t have "snd (checkRateLimit ?i PollCreation 4000 (store_after ?evs)) = store_after ?evs"
    by blast
  moreover from t v have "entry_in_bounds (rate_key PollCreation ?i)
      \<lparr>count = 3, resetTime = 61000\<rparr>"
    by blast
  ultimately show ?thesis
    using v d by blast
qed

section \<open>Properties of the middleware\<close>

lemma header_names_distinct:
  "header_name (str ''X-RateLimit-Limit'') \<noteq> header_name (str ''X-RateLimit-Remaining'')"
  "header_name (str ''X-RateLimit-Limit'') \<noteq> header_name (str ''X-RateLimit-Reset'')"
  by (simp_all add: header_name_def str_def cu_def is_upper_def)

lemma withRateLimit_denied:
  assumes "\<not> allowed (fst (checkRateLimit (getClientIP (NextRequest.headers req)) rateLimitType now s))"
  shows "\<exists>response. withRateLimit handler rateLimitType req now now1 now2 s =
      (Inr response, snd (checkRateLimit (getClientIP (NextRequest.headers req)) rateLimitType now s)) \<and>
      status response = 429 \<and>
      headers_get (headers response) (str ''X-RateLimit-Limit'') = Some (str ''5'')"
proof -
  obtain r s1 where c: "checkRateLimit (getClientIP (NextRequest.headers req)) rateLimitType now s = (r, s1)"
    by (cases "checkRateLimit (getClientIP (NextRequest.headers req)) rateLimitType now s")
  with assms have "\<not> allowed r" by simp
  with c show ?thesis
    by (simp add: withRateLimit_def headers_get_def headers_set_def header_names_distinct)
qed

lemma withRateLimit_allowed:
  assumes "allowed (fst (checkRateLimit (getClientIP (NextRequest.headers req)) rateLimitType now s))"
  shows "withRateLimit handler rateLimitType req now now1 now2 s =
     (case handler req of
        Inl e \<Rightarrow> Inl e
      | Inr r \<Rightarrow> Inr (r\<lparr>headers :=
          headers_set (headers_set (headers_set (headers r)
            (str ''X-RateLimit-Limit'') (str ''5''))
            (str ''X-RateLimit-Remaining'')
              (number_toString (remaining (fst (checkRateLimit
                 (getClientIP (NextRequest.headers req)) rateLimitType now s)))))
            (str ''X-RateLimit-Reset'')
              (number_toString (resetTime (fst (checkRateLimit
                 (getClientIP (NextRequest.headers req)) rateLimitType now s))))\<rparr>),
      snd (checkRateLimit (getClientIP (NextRequest.headers req)) rateLimitType now s))"
proof -
  obtain r s1 where c: "checkRateLimit (getClientIP (NextRequest.headers req)) rateLimitType now s = (r, s1)"
    by (cases "checkRateLimit (getClientIP (NextRequest.headers req)) rateLimitType now s")
  with assms have "allowed r" by simp
  with c show ?thesis
    by (simp add: withRateLimit_def split: sum.splits)
qed

text \<open>
  Claim C10. For every limit class and every request, every response that
  \<open>withRateLimit\<close> returns carries the header \<open>X-RateLimit-Limit\<close> with the value
  \<open>5\<close>: the 429 response of a denied request and the handler's response of an allowed
  one alike, although the class \<open>pollCreation\<close> allows 3 attempts and \<open>api\<close> allows 30.
\<close>

theorem withRateLimit_limit_header:
  "(\<forall>response s'. withRateLimit handler rateLimitType req now now1 now2 s = (Inr response, s') \<longrightarrow>
      headers_get (headers response) (str ''X-RateLimit-Limit'') = Some (str ''5'')) \<and>
   (\<not> allowed (fst (checkRateLimit (getClientIP (NextRequest.headers req)) rateLimitType now s)) \<longrightarrow>
      (\<exists>response s'. withRateLimit handler rateLimitType req now now1 now2 s = (Inr response, s') \<and>
         status response = 429)) \<and>
   (allowed (fst (checkRateLimit (getClientIP (NextRequest.headers req)) rateLimitType now s)) \<longrightarrow>
      (\<forall>r. handler req = Inr r \<longrightarrow>
         (\<exists>response s'. withRateLimit handler rateLimitType req now now1 now2 s = (Inr response, s') \<and>
            status response = status r \<and> body response = body r))) \<and>
   maxAttempts (RATE_LIMITS Auth) = 5 \<and> maxAttempts (RATE_LIMITS PollCreation) = 3 \<and>
   maxAttempts (RATE_LIMITS Api) = 30"
proof -
  let ?a = "allowed (fst (checkRateLimit (getClientIP (NextRequest.headers req)) rateLimitType now s))"
  have p1: "headers_get (headers response) (str ''X-RateLimit-Limit'') = Some (str ''5'')"
    if w: "withRateLimit handler rateLimitType req now now1 now2 s = (Inr response, s')"
    for response s'
  proof (cases ?a)
    case True
    from w show ?thesis
      unfolding withRateLimit_allowed [OF True]
      by (auto simp: headers_get_def headers_set_def header_names_distinct split: sum.splits)
  next
    case False
    from withRateLimit_denied [OF False, of handler now1 now2] w show ?thesis by auto
  qed
  have p2: "\<exists>response s'. withRateLimit handler rateLimitType req now now1 now2 s = (Inr response, s') \<and>
         status response = 429" if "\<not> ?a"
    using withRateLimit_denied [OF that, of handler now1 now2] by blast
  have p3: "\<exists>response s'. withRateLimit handler rateLimitType req now now1 now2 s = (Inr response, s') \<and>
            status response = status r \<and> body response = body r"
    if "?a" "handler req = Inr r" for r
    unfolding withRateLimit_allowed [OF that(1)] using that(2) by simp
  show ?thesis
    using p1 p2 p3 by simp
qed

theorem withRateLimit_limit_header_witness:
  "(\<exists>response s'.
      withRateLimit (\<lambda>r. Inr \<lparr>body = str ''ok'', status = 200, headers = Map.empty\<rparr> :: unit + NextResponse)
        PollCreation \<lparr>NextRequest.headers = Map.empty\<rparr> 1000 1001 1002 Map.empty = (Inr response, s') \<and>
      status response = 200 \<and>
      headers_get (headers response) (str ''X-RateLimit-Limit'') = Some (str ''5'')) \<and>
   (\<exists>response s'.
      withRateLimit (\<lambda>r. Inr \<lparr>body = str ''ok'', status = 200, headers = Map.empty\<rparr> :: unit + NextResponse)
        PollCreation \<lparr>NextRequest.headers = Map.empty\<rparr> 4000 4001 4002
        (store_after [Check (str ''unknown'') PollCreation 1000,
           Check (str ''unknown'') PollCreation 2000,
           Check (str ''unknown'') PollCreation 3000]) = (Inr response, s') \<and>
      status response = 429 \<and>
      headers_get (headers response) (str ''X-RateLimit-Limit'') = Some (str ''5''))"
proof -
  let ?h = "\<lambda>r. Inr \<lparr>body = str ''ok'', status = 200, headers = Map.empty\<rparr> :: unit + NextResponse"
  let ?req = "\<lparr>NextRequest.headers = Map.empty\<rparr>"
  let ?evs = "[Check (str ''unknown'') PollCreation 1000, Check (str ''unknown'') PollCreation 2000,
    Check (str ''unknown'') PollCreation 3000]"
  have ip: "getClientIP (NextRequest.headers ?req) = str ''unknown''"
    by (simp add: getClientIP_def headers_get_def truthy_def)
  have a: "allowed (fst (checkRateLimit (getClientIP (NextRequest.headers ?req)) PollCreation 1000 Map.empty))"
    unfolding ip by (simp add: checkRateLimit_def Let_def)
  have v: "store_after ?evs (rate_key PollCreation (str ''unknown'')) =
      Some \<lparr>count = 3, resetTime = 61000\<rparr>"
    by (simp add: store_after_def checkRateLimit_def Let_def)
  have d: "\<not> allowed (fst (checkRateLimit (getClientIP (NextRequest.headers ?req)) PollCreation 4000
      (store_after ?evs)))"
    unfolding ip using v by (simp add: checkRateLimit_def Let_def)
  note t1 = withRateLimit_limit_header [of ?h PollCreation ?req 1000 1001 1002 Map.empty]
  note t2 = withRateLimit_limit_header [of ?h PollCreation ?req 4000 4001 4002 "store_after ?evs"]
  from t1 a obtain response s' where
    r1: "withRateLimit ?h PollCreation ?req 1000 1001 1002 Map.empty = (Inr response, s')"
      "status response = 200"
    by fastforce
  from t1 r1(1) have "headers_get (headers response) (str ''X-RateLimit-Limit'') = Some (str ''5'')"
    by blast
  with r1 have g1: "\<exists>response s'.
      withRateLimit ?h PollCreation ?req 1000 1001 1002 Map.empty = (Inr response, s') \<and>
      status response = 200 \<and>
      headers_get (headers response) (str ''X-RateLimit-Limit'') = Some (str ''5'')"
    by blast
  from t2 d obtain response2 s2 where
    r2: "withRateLimit ?h PollCreation ?req 4000 4001 4002 (store_after ?evs) = (Inr response2, s2)"
      "status response2 = 429"
    by blast
  from t2 r2(1) have "headers_get (headers response2) (str ''X-RateLimit-Limit'') = Some (str ''5'')"
    by blast
  with r2 have g2: "\<exists>response s'.
      withRateLimit ?h PollCreation ?req 4000 4001 4002 (store_after ?evs) = (Inr response, s') \<and>
      status response = 429 \<and>
      headers_get (headers response) (str ''X-RateLimit-Limit'') = Some (str ''5'')"
    by blast
  from g1 g2 show ?thesis by blast
qed

section \<open>Properties of the authentication handlers\<close>

text \<open>Once the inputs are valid, \<open>login\<close> and \<open>register\<close> answer every error of the
  platform with their fixed message.\<close>

lemma login_generic_error:
  assumes "ValidationResult.errors (validateEmail toLowerCase (LoginFormData.email data)) = []"
    and "PasswordValidation.errors (validatePassword (LoginFormData.password data)) = []"
    and "signInWithPassword supabase
           (sanitized (validateEmail toLowerCase (LoginFormData.email data)))
           (LoginFormData.password data) = Some e"
  shows "login toLowerCase supabase data = \<lparr>error = Some (str ''Invalid email or password'')\<rparr>"
  using assms by (simp add: login_def Let_def)

lemma register_generic_error:
  assumes "ValidationResult.errors (validateEmail toLowerCase (RegisterFormData.email data)) = []"
    and "PasswordValidation.errors (validatePassword (RegisterFormData.password data)) = []"
    and "ValidationResult.errors (validateName (name data)) = []"
    and "signUp supabase
           (sanitized (validateEmail toLowerCase (RegisterFormData.email data)))
           (RegisterFormData.password data) (sanitized (validateName (name data))) = Some e"
  shows "register toLowerCase supabase data =
    \<lparr>error = Some (str ''Failed to create account. Please try again.'')\<rparr>"
  using assms by (simp add: register_def Let_def)

lemma logout_returns_platform_message:
  "signOut supabase = Some e \<Longrightarrow> logout supabase = \<lparr>error = Some (message e)\<rparr>"
  by (simp add: logout_def)

text \<open>
  Claim C1. The handlers are to answer a platform error with a fixed generic message
  that holds nothing of the platform's own text. \<open>login\<close> and \<open>register\<close> do;
  \<open>logout\<close> returns the platform's message itself, as this run shows.
\<close>

theorem logout_leaks_platform_error:
  "logout \<lparr>signInWithPassword = (\<lambda>e p. None), signUp = (\<lambda>e p n. None),
     signOut = Some \<lparr>message = str ''connect ECONNREFUSED 10.0.0.5:5432'',
                     code = str ''unexpected_failure''\<rparr>\<rparr> =
   \<lparr>error = Some (str ''connect ECONNREFUSED 10.0.0.5:5432'')\<rparr>"
  by (simp add: logout_def)

section \<open>Properties of poll deletion\<close>

text \<open>
  Claim C9. \<open>deletePoll\<close> called by an identity that is not the owner of the poll
  (an unauthenticated caller, or a user whose id is not the poll's \<open>ownerId\<close>), whether
  the poll exists or not, fails with \<open>Forbidden\<close>, leaves the polls as they were and
  asks no deletion of the platform.
\<close>

theorem deletePoll_non_owner_forbidden:
  assumes "\<not> (\<exists>uid poll. identity_id identity = Some uid \<and> polls pollId = Some poll \<and>
             ownerId poll = uid)"
  shows "\<exists>ops. deletePoll identity pollId polls = (Inl Forbidden, polls, ops) \<and>
           (\<forall>p. DeleteRow p \<notin> set ops)"
  using assms by (auto simp: deletePoll_def split: option.splits)

theorem deletePoll_non_owner_forbidden_witness:
  "deletePoll Unauthenticated (str ''p1'')
     [str ''p1'' \<mapsto> \<lparr>ownerId = str ''alice'', question = str ''Tabs or spaces?'',
        options = [str ''Tabs'', str ''Spaces''], createdAt = 0\<rparr>] =
     (Inl Forbidden,
      [str ''p1'' \<mapsto> \<lparr>ownerId = str ''alice'', question = str ''Tabs or spaces?'',
        options = [str ''Tabs'', str ''Spaces''], createdAt = 0\<rparr>], []) \<and>
   (\<exists>ops. deletePoll (Regular (str ''bob'')) (str ''p1'')
     [str ''p1'' \<mapsto> \<lparr>ownerId = str ''alice'', question = str ''Tabs or spaces?'',
        options = [str ''Tabs'', str ''Spaces''], createdAt = 0\<rparr>] =
     (Inl Forbidden,
      [str ''p1'' \<mapsto> \<lparr>ownerId = str ''alice'', question = str ''Tabs or spaces?'',
        options = [str ''Tabs'', str ''Spaces''], createdAt = 0\<rparr>], ops) \<and>
     (\<forall>p. DeleteRow p \<notin> set ops)) \<and>
   (\<exists>ops. deletePoll (Regular (str ''bob'')) (str ''p2'') Map.empty =
     (Inl Forbidden, Map.empty, ops) \<and> (\<forall>p. DeleteRow p \<notin> set ops))"
proof -
  let ?polls = "[str ''p1'' \<mapsto> \<lparr>ownerId = str ''alice'', question = str ''Tabs or spaces?'',
        options = [str ''Tabs'', str ''Spaces''], createdAt = 0\<rparr>]"
  have h1: "\<not> (\<exists>uid poll. identity_id (Regular (str ''bob'')) = Some uid \<and>
      ?polls (str ''p1'') = Some poll \<and> ownerId poll = uid)"
    by (simp add: str_def cu_def)
  have h2: "\<not> (\<exists>uid poll. identity_id (Regular (str ''bob'')) = Some uid \<and>
      (Map.empty :: Polls) (str ''p2'') = Some poll \<and> ownerId poll = uid)"
    by simp
  have "deletePoll Unauthenticated (str ''p1'') ?polls = (Inl Forbidden, ?polls, [])"
    by (simp add: deletePoll_def)
  with deletePoll_non_owner_forbidden [of "Regular (str ''bob'')" ?polls "str ''p1''", OF h1]
    deletePoll_non_owner_forbidden [of "Regular (str ''bob'')" Map.empty "str ''p2''", OF h2]
  show ?thesis by blast
qed

end
